theory Spec2Isabelle
  imports Main "HOL-Library.AList"
begin

section \<open>Data model (models.ts)\<close>

text \<open>
  A \<open>Message\<close> as it arrives in a request body. The TypeScript type promises a role out
  of four literals, but \<open>validateMessages\<close> checks exactly that at run time, so the
  role is an optional string here: \<open>None\<close> is a missing (undefined or null) field.
  \<open>content\<close> is \<open>string | null\<close>; the optional fields are \<open>None\<close> when absent.
  A \<open>ToolCall\<close> always has \<open>type: 'function'\<close>, which is therefore not a field.
\<close>

record function_call =
  fc_name :: string
  fc_arguments :: string

record tool_call =
  tc_id :: string
  tc_function :: function_call

record message =
  role :: "string option"
  content :: "string option"
  name :: "string option"
  tool_calls :: "tool_call list option"
  tool_call_id :: "string option"

text \<open>JavaScript truthiness of an optional string: absent and the empty string are falsy.\<close>

definition truthy :: "string option \<Rightarrow> bool" where
  "truthy v = (case v of None \<Rightarrow> False | Some s \<Rightarrow> s \<noteq> [])"

text \<open>\<open>v || ''\<close> on an optional string.\<close>

definition or_empty :: "string option \<Rightarrow> string" where
  "or_empty v = (case v of None \<Rightarrow> [] | Some s \<Rightarrow> s)"

text \<open>\<open>Array.prototype.join\<close> on an array of strings.\<close>

fun join :: "string \<Rightarrow> string list \<Rightarrow> string" where
  "join sep [] = []"
| "join sep [x] = x"
| "join sep (x # y # ys) = x @ sep @ join sep (y # ys)"

text \<open>Decimal rendering of an array index inside a template string.\<close>

fun string_of_nat :: "nat \<Rightarrow> string" where
  "string_of_nat n =
     (if n < 10 then [''0123456789'' ! n]
      else string_of_nat (n div 10) @ [''0123456789'' ! (n mod 10)])"

section \<open>Message adapter\<close>

subsection \<open>validateMessages\<close>

record validation_result =
  valid :: bool
  error :: "string option"

definition validRoles :: "string list" where
  "validRoles = [''system'', ''user'', ''assistant'', ''tool'']"

text \<open>
  The \<open>for\<close> loop of \<open>validateMessages\<close>, from index \<open>i\<close> on: the first failing check
  returns. The argument is a list, so \<open>Array.isArray\<close> holds.
\<close>

fun validate_from :: "nat \<Rightarrow> message list \<Rightarrow> validation_result" where
  "validate_from i [] = \<lparr>valid = True, error = None\<rparr>"
| "validate_from i (m # ms) =
     (if \<not> truthy (role m) then
        \<lparr>valid = False,
         error = Some (''Message at index '' @ string_of_nat i @ '' missing required field: role'')\<rparr>
      else if or_empty (role m) \<notin> set validRoles then
        \<lparr>valid = False,
         error = Some (''Message at index '' @ string_of_nat i @ '' has invalid role: ''
                       @ or_empty (role m))\<rparr>
      else if role m = Some ''user'' \<and> \<not> truthy (content m) then
        \<lparr>valid = False,
         error = Some (''User message at index '' @ string_of_nat i @ '' missing content'')\<rparr>
      else validate_from (Suc i) ms)"

definition validateMessages :: "message list \<Rightarrow> validation_result" where
  "validateMessages msgs =
     (if length msgs = 0 then
        \<lparr>valid = False, error = Some ''Messages must be a non-empty array''\<rparr>
      else validate_from 0 msgs)"

subsection \<open>messagesToPrompt\<close>

definition newline :: string where
  "newline = [CHR 0x0A]"

definition toolCallsStr :: "tool_call list \<Rightarrow> string" where
  "toolCallsStr tcs =
     join newline
       (map (\<lambda>tc. ''Tool call: '' @ fc_name (tc_function tc) @ ''('' @
                  fc_arguments (tc_function tc) @ '')'') tcs)"

text \<open>
  The \<open>for\<close> loop of \<open>messagesToPrompt\<close> with its two arrays \<open>systemMessages\<close> and
  \<open>conversationMessages\<close>; \<open>push\<close> appends at the end. A role outside the four
  branches contributes nothing.
\<close>

fun prompt_loop ::
  "message list \<Rightarrow> string list \<Rightarrow> string list \<Rightarrow> string list \<times> string list" where
  "prompt_loop [] systemMessages conversationMessages = (systemMessages, conversationMessages)"
| "prompt_loop (m # ms) systemMessages conversationMessages =
     (if role m = Some ''system'' then
        (if truthy (content m)
         then prompt_loop ms (systemMessages @ [or_empty (content m)]) conversationMessages
         else prompt_loop ms systemMessages conversationMessages)
      else if role m = Some ''user'' then
        prompt_loop ms systemMessages
          (conversationMessages @
             [''User: '' @ (if truthy (name m) then or_empty (name m) @ '': '' else [])
                @ or_empty (content m)])
      else if role m = Some ''assistant'' then
        prompt_loop ms systemMessages
          ((if truthy (content m)
            then conversationMessages @ [''Assistant: '' @ or_empty (content m)]
            else conversationMessages)
           @ (case tool_calls m of
                None \<Rightarrow> []
              | Some tcs \<Rightarrow>
                  if length tcs > 0 then [''Assistant: '' @ toolCallsStr tcs] else []))
      else if role m = Some ''tool'' then
        prompt_loop ms systemMessages
          (conversationMessages @ [''Tool result: '' @ or_empty (content m)])
      else prompt_loop ms systemMessages conversationMessages)"

text \<open>Returns the pair \<open>[prompt, systemPrompt]\<close>; \<open>undefined\<close> is \<open>None\<close>.\<close>

definition messagesToPrompt :: "message list \<Rightarrow> string \<times> string option" where
  "messagesToPrompt msgs =
     (case prompt_loop msgs [] [] of
        (systemMessages, conversationMessages) \<Rightarrow>
          (join (newline @ newline) conversationMessages,
           if length systemMessages > 0
           then Some (join (newline @ newline) systemMessages) else None))"

definition estimateTokens :: "string \<Rightarrow> nat" where
  "estimateTokens txt = (length txt + 3) div 4"

section \<open>Session manager\<close>

text \<open>
  A \<open>Session\<close>; dates are the milliseconds of \<open>Date.getTime()\<close>. The store is the
  JavaScript \<open>Map\<close> from session id to session, kept as an association list in insertion
  order: \<open>Map.get\<close> is \<open>map_of\<close>, \<open>Map.set\<close> is \<open>AList.update\<close> (an existing key keeps
  its place, a new key goes last) and \<open>Map.delete\<close> is \<open>AList.delete\<close>. A session is an
  object held by the map, so assigning to one of its fields is a \<open>Map.set\<close> of the changed
  record under the same key. The logger and the timer handle carry no data of the store.
\<close>

record session =
  sessionId :: string
  threadId :: string
  messages :: "message list"
  createdAt :: int
  lastActive :: int
  messageCount :: nat

record session_manager =
  sessions :: "(string \<times> session) list"
  defaultTTL :: int

text \<open>The constructor: \<open>if (options.ttl)\<close> keeps the default for an absent or zero ttl.\<close>

definition SessionManager :: "int option \<Rightarrow> session_manager" where
  "SessionManager ttl =
     \<lparr>sessions = [],
      defaultTTL = (case ttl of None \<Rightarrow> 3600000 | Some t \<Rightarrow> if t \<noteq> 0 then t else 3600000)\<rparr>"

text \<open>The body of the loop over the request's messages in \<open>processMessages\<close>.\<close>

fun push_messages :: "message list \<Rightarrow> session \<Rightarrow> session" where
  "push_messages [] s = s"
| "push_messages (m # ms) s =
     (if role m \<noteq> Some ''system''
      then push_messages ms (s\<lparr>messages := messages s @ [m], messageCount := messageCount s + 1\<rparr>)
      else push_messages ms s)"

text \<open>
  \<open>processMessages(messages, sessionId?)\<close> at clock reading \<open>now\<close> (the reads of
  \<open>new Date()\<close> within the one synchronous call are taken as the same instant). The
  result is the returned pair and the manager after the call.
\<close>

definition processMessages ::
  "int \<Rightarrow> message list \<Rightarrow> string option \<Rightarrow> session_manager
     \<Rightarrow> (message list \<times> string option) \<times> session_manager" where
  "processMessages now msgs sid mgr =
     (if \<not> truthy sid then ((msgs, None), mgr)
      else
        let k = or_empty sid;
            s0 = (case map_of (sessions mgr) k of
                    Some s \<Rightarrow> s
                  | None \<Rightarrow> \<lparr>sessionId = k, threadId = [], messages = [],
                             createdAt = now, lastActive = now, messageCount = 0\<rparr>);
            s1 = push_messages msgs (s0\<lparr>lastActive := now\<rparr>)
        in ((messages s1, Some k), mgr\<lparr>sessions := AList.update k s1 (sessions mgr)\<rparr>))"

definition addAssistantResponse ::
  "int \<Rightarrow> string \<Rightarrow> message \<Rightarrow> session_manager \<Rightarrow> session_manager" where
  "addAssistantResponse now k msg mgr =
     (case map_of (sessions mgr) k of
        None \<Rightarrow> mgr
      | Some s \<Rightarrow>
          mgr\<lparr>sessions :=
                AList.update k
                  (s\<lparr>messages := messages s @ [msg],
                     messageCount := messageCount s + 1,
                     lastActive := now\<rparr>)
                  (sessions mgr)\<rparr>)"

definition getThreadId :: "string \<Rightarrow> session_manager \<Rightarrow> string option" where
  "getThreadId k mgr = map_option threadId (map_of (sessions mgr) k)"

definition setThreadId :: "string \<Rightarrow> string \<Rightarrow> session_manager \<Rightarrow> session_manager" where
  "setThreadId k tid mgr =
     (case map_of (sessions mgr) k of
        None \<Rightarrow> mgr
      | Some s \<Rightarrow> mgr\<lparr>sessions := AList.update k (s\<lparr>threadId := tid\<rparr>) (sessions mgr)\<rparr>)"

definition getSession :: "string \<Rightarrow> session_manager \<Rightarrow> session option" where
  "getSession k mgr = map_of (sessions mgr) k"

text \<open>
  A \<open>SessionInfo\<close>. The source renders the three instants with \<open>toISOString\<close>; the
  model keeps the instants themselves.
\<close>

record session_info =
  session_id :: string
  created_at :: int
  last_active :: int
  message_count :: nat
  expires_at :: int

definition listSessions :: "session_manager \<Rightarrow> session_info list" where
  "listSessions mgr =
     map (\<lambda>(k, s). \<lparr>session_id = k, created_at = createdAt s, last_active = lastActive s,
                     message_count = messageCount s,
                     expires_at = lastActive s + defaultTTL mgr\<rparr>)
       (sessions mgr)"

definition deleteSession :: "string \<Rightarrow> session_manager \<Rightarrow> bool \<times> session_manager" where
  "deleteSession k mgr =
     (map_of (sessions mgr) k \<noteq> None, mgr\<lparr>sessions := AList.delete k (sessions mgr)\<rparr>)"

text \<open>
  \<open>cleanup\<close>: the loop visits every entry of the map once (deleting the entry being
  visited does not disturb a \<open>Map\<close> iteration) and deletes the expired ones from the
  store.
\<close>

fun cleanup_loop ::
  "int \<Rightarrow> int \<Rightarrow> (string \<times> session) list \<Rightarrow> (string \<times> session) list
     \<Rightarrow> (string \<times> session) list" where
  "cleanup_loop now ttl [] store = store"
| "cleanup_loop now ttl ((k, s) # es) store =
     (if now > lastActive s + ttl
      then cleanup_loop now ttl es (AList.delete k store)
      else cleanup_loop now ttl es store)"

definition cleanup :: "int \<Rightarrow> session_manager \<Rightarrow> session_manager" where
  "cleanup now mgr =
     mgr\<lparr>sessions := cleanup_loop now (defaultTTL mgr) (sessions mgr) (sessions mgr)\<rparr>"

definition clear :: "session_manager \<Rightarrow> session_manager" where
  "clear mgr = mgr\<lparr>sessions := []\<rparr>"

section \<open>Codex client: the backend's event stream\<close>

record usage =
  prompt_tokens :: nat
  completion_tokens :: nat
  total_tokens :: nat

datatype finish_reason = Stop | Length | Tool_calls

datatype stream_event_type = EvContent | EvUsage | EvComplete | EvError

text \<open>A \<open>StreamEvent\<close>: the tag and the optional fields of the interface.\<close>

record stream_event =
  ev_type :: stream_event_type
  ev_content :: "string option"
  ev_usage :: "usage option"
  ev_thread_id :: "string option"
  ev_finish_reason :: "finish_reason option"
  ev_error :: "string option"

text \<open>
  What the Codex SDK hands to the client, as far as the client looks at it. An event is
  \<open>item.completed\<close> (with an item or none), \<open>turn.completed\<close> (with a usage or none),
  \<open>error\<close> (with a payload, given as \<open>String(event.error)\<close>, or none), or of a type the
  \<open>switch\<close> has no case for. An item is of type \<open>text\<close>, of type \<open>message\<close> (its
  content a string or an array of parts with an optional \<open>text\<close>), or of another type.
\<close>

datatype item_content = Content_string string | Content_parts "string option list"

datatype sdk_item = Text_item "string option" | Message_item "item_content option" | Other_item

record sdk_usage =
  inputTokens :: "nat option"
  outputTokens :: "nat option"

datatype sdk_event =
    Item_completed "sdk_item option"
  | Turn_completed "sdk_usage option"
  | Error_event "string option"
  | Other_event

text \<open>
  One run of the SDK for a prompt: the id of the thread (if it has one), the events its
  iterator delivers, and the message of the exception that ends the run, if one does:
  raised by \<open>startThread\<close>, \<open>resumeThread\<close> or \<open>runStreamed\<close> (then there are no
  events), or by the iterator after the listed events.
\<close>

record codex_run =
  run_thread_id :: "string option"
  run_events :: "sdk_event list"
  run_thrown :: "string option"

definition or_zero :: "nat option \<Rightarrow> nat" where
  "or_zero v = (case v of None \<Rightarrow> 0 | Some n \<Rightarrow> n)"

definition content_event :: "string \<Rightarrow> string option \<Rightarrow> stream_event" where
  "content_event txt tid =
     \<lparr>ev_type = EvContent, ev_content = Some txt, ev_usage = None, ev_thread_id = tid,
      ev_finish_reason = None, ev_error = None\<rparr>"

definition usage_event :: "usage \<Rightarrow> string option \<Rightarrow> stream_event" where
  "usage_event u tid =
     \<lparr>ev_type = EvUsage, ev_content = None, ev_usage = Some u, ev_thread_id = tid,
      ev_finish_reason = None, ev_error = None\<rparr>"

definition error_event :: "string \<Rightarrow> string option \<Rightarrow> stream_event" where
  "error_event msg tid =
     \<lparr>ev_type = EvError, ev_content = None, ev_usage = None, ev_thread_id = tid,
      ev_finish_reason = None, ev_error = Some msg\<rparr>"

definition complete_event :: "string option \<Rightarrow> usage option \<Rightarrow> stream_event" where
  "complete_event tid tu =
     \<lparr>ev_type = EvComplete, ev_content = None, ev_usage = tu, ev_thread_id = tid,
      ev_finish_reason = Some Stop, ev_error = None\<rparr>"

text \<open>
  The \<open>for await\<close> loop of \<open>runCompletionStreaming\<close> over the SDK's events, with the
  running \<open>totalUsage\<close>: the events it yields, in order, and the final \<open>totalUsage\<close>.
  Every \<open>case\<close> of the \<open>switch\<close> ends in \<open>break\<close>, which leaves the \<open>switch\<close> and goes on
  with the next event.
\<close>

fun stream_loop ::
  "string option \<Rightarrow> sdk_event list \<Rightarrow> usage option \<Rightarrow> stream_event list \<times> usage option" where
  "stream_loop tid [] tu = ([], tu)"
| "stream_loop tid (Item_completed None # es) tu = stream_loop tid es tu"
| "stream_loop tid (Item_completed (Some (Text_item t)) # es) tu =
     (if truthy t
      then (case stream_loop tid es tu of
              (ys, tu') \<Rightarrow> (content_event (or_empty t) tid # ys, tu'))
      else stream_loop tid es tu)"
| "stream_loop tid (Item_completed (Some (Message_item None)) # es) tu =
     stream_loop tid es tu"
| "stream_loop tid (Item_completed (Some (Message_item (Some (Content_string c)))) # es) tu =
     (if c \<noteq> []
      then (case stream_loop tid es tu of (ys, tu') \<Rightarrow> (content_event c tid # ys, tu'))
      else stream_loop tid es tu)"
| "stream_loop tid (Item_completed (Some (Message_item (Some (Content_parts ps)))) # es) tu =
     (if concat (map or_empty ps) \<noteq> []
      then (case stream_loop tid es tu of
              (ys, tu') \<Rightarrow> (content_event (concat (map or_empty ps)) tid # ys, tu'))
      else stream_loop tid es tu)"
| "stream_loop tid (Item_completed (Some Other_item) # es) tu = stream_loop tid es tu"
| "stream_loop tid (Turn_completed None # es) tu = stream_loop tid es tu"
| "stream_loop tid (Turn_completed (Some u) # es) tu =
     (let totalUsage =
            \<lparr>prompt_tokens = or_zero (inputTokens u),
             completion_tokens = or_zero (outputTokens u),
             total_tokens = or_zero (inputTokens u) + or_zero (outputTokens u)\<rparr>
      in case stream_loop tid es (Some totalUsage) of
           (ys, tu') \<Rightarrow> (usage_event totalUsage tid # ys, tu'))"
| "stream_loop tid (Error_event e # es) tu =
     (case stream_loop tid es tu of
        (ys, tu') \<Rightarrow>
          (error_event (case e of Some msg \<Rightarrow> msg | None \<Rightarrow> ''Unknown error'') tid # ys,
           tu'))"
| "stream_loop tid (Other_event # es) tu = stream_loop tid es tu"

text \<open>
  \<open>runCompletionStreaming(prompt, options)\<close>, read to its end: every event the
  generator yields. \<open>codex\<close> is the SDK: the run it performs for the thread id to resume
  (if any) and the final prompt. Of the options only \<open>threadId\<close> and \<open>systemPrompt\<close> are
  read by the source. After the loop the generator yields \<open>complete\<close>; when the run
  throws, the \<open>catch\<close> block yields an \<open>error\<close> event with no thread id instead.
\<close>

definition runCompletionStreaming ::
  "(string option \<Rightarrow> string \<Rightarrow> codex_run) \<Rightarrow> string \<Rightarrow> string option \<Rightarrow> string option
     \<Rightarrow> stream_event list" where
  "runCompletionStreaming codex prompt optThreadId systemPrompt =
     (let run = codex (if truthy optThreadId then optThreadId else None)
                  (if truthy systemPrompt
                   then or_empty systemPrompt @ newline @ newline @ prompt else prompt);
          tid = (if truthy (run_thread_id run) then run_thread_id run else None)
      in case stream_loop tid (run_events run) None of
           (ys, tu) \<Rightarrow>
             (case run_thrown run of
                None \<Rightarrow> ys @ [complete_event tid tu]
              | Some msg \<Rightarrow> ys @ [error_event msg None]))"

section \<open>Request handler: the streaming branch\<close>

text \<open>
  What the handler writes to the response in streaming mode, one \<open>data:\<close> line each: a
  chunk with a content delta and no finish reason, the final chunk (empty delta, finish
  reason, usage), the \<open>[DONE]\<close> marker, and the error object written by the \<open>catch\<close>
  block. The request id, the creation time and the model name are the same in every
  chunk of a response and are left out.
\<close>

datatype sse =
    Delta_chunk string
  | Final_chunk finish_reason "usage option"
  | Done_marker
  | Error_data string

text \<open>
  The \<open>for await\<close> loop over the client's events inside the \<open>try\<close> block, for the bound
  session id \<open>actualSessionId\<close>. The first component of the result is the message of the
  \<open>Error\<close> thrown on an \<open>error\<close> event (the loop ends there and the generator is not
  read any further); writes and session updates made before it stay.
\<close>

fun consume_events ::
  "string option \<Rightarrow> stream_event list \<Rightarrow> sse list \<Rightarrow> session_manager
     \<Rightarrow> string option \<times> sse list \<times> session_manager" where
  "consume_events actualSessionId [] out mgr = (None, out, mgr)"
| "consume_events actualSessionId (e # es) out mgr =
     (if ev_type e = EvContent \<and> truthy (ev_content e) then
        consume_events actualSessionId es (out @ [Delta_chunk (or_empty (ev_content e))]) mgr
      else if ev_type e = EvComplete then
        consume_events actualSessionId es
          (out @ [Final_chunk (case ev_finish_reason e of Some r \<Rightarrow> r | None \<Rightarrow> Stop)
                    (ev_usage e),
                  Done_marker])
          (if truthy actualSessionId \<and> truthy (ev_thread_id e)
           then setThreadId (or_empty actualSessionId) (or_empty (ev_thread_id e)) mgr
           else mgr)
      else if ev_type e = EvError then
        (Some (if truthy (ev_error e) then or_empty (ev_error e) else ''Unknown error''),
         out, mgr)
      else consume_events actualSessionId es out mgr)"

text \<open>The \<open>try\<close>/\<open>catch\<close> around the loop; both paths end the response.\<close>

definition stream_response ::
  "string option \<Rightarrow> stream_event list \<Rightarrow> session_manager \<Rightarrow> sse list \<times> session_manager" where
  "stream_response actualSessionId events mgr =
     (case consume_events actualSessionId events [] mgr of
        (None, out, mgr') \<Rightarrow> (out, mgr')
      | (Some msg, out, mgr') \<Rightarrow> (out @ [Error_data msg], mgr'))"

datatype reply = Bad_request string | Event_stream "sse list"

text \<open>
  \<open>POST /v1/chat/completions\<close> with \<open>stream: true\<close>: validation, session resolution,
  prompt conversion, the thread id of the session, and the streamed response. The tool
  options of the request reach \<open>runCompletionStreaming\<close> only as options it does not
  read. \<open>now\<close> is the clock at \<open>processMessages\<close>.
\<close>

definition chat_completions_stream ::
  "(string option \<Rightarrow> string \<Rightarrow> codex_run) \<Rightarrow> int \<Rightarrow> message list \<Rightarrow> string option
     \<Rightarrow> session_manager \<Rightarrow> reply \<times> session_manager" where
  "chat_completions_stream codex now body_messages body_session_id mgr =
     (let validation = validateMessages body_messages in
      if \<not> valid validation
      then (Bad_request (if truthy (error validation) then or_empty (error validation)
                         else ''Invalid messages''), mgr)
      else
        case processMessages now body_messages body_session_id mgr of
          ((allMessages, actualSessionId), mgr1) \<Rightarrow>
            (case messagesToPrompt allMessages of
               (prompt, systemPrompt) \<Rightarrow>
                 if prompt = [] then (Bad_request ''No valid prompt in messages'', mgr1)
                 else
                   let threadId = (if truthy actualSessionId
                                   then getThreadId (or_empty actualSessionId) mgr1 else None)
                   in case stream_response actualSessionId
                             (runCompletionStreaming codex prompt threadId systemPrompt) mgr1 of
                        (out, mgr2) \<Rightarrow> (Event_stream out, mgr2)))"

text \<open>
  The session update of the non-streaming branch, after \<open>runCompletion\<close> returned
  \<open>result\<close> (its content and thread id), at clock reading \<open>now\<close>.
\<close>

definition update_session_after_completion ::
  "int \<Rightarrow> string option \<Rightarrow> string \<Rightarrow> string option \<Rightarrow> session_manager \<Rightarrow> session_manager" where
  "update_session_after_completion now actualSessionId result_content result_thread_id mgr =
     (if truthy actualSessionId \<and> truthy result_thread_id
      then addAssistantResponse now (or_empty actualSessionId)
             \<lparr>role = Some ''assistant'', content = Some result_content, name = None,
              tool_calls = None, tool_call_id = None\<rparr>
             (setThreadId (or_empty actualSessionId) (or_empty result_thread_id) mgr)
      else mgr)"

section \<open>Tool handler: extractToolCalls\<close>

text \<open>\<open>\w\<close> of a regular expression without the \<open>u\<close> and \<open>i\<close> flags.\<close>

definition is_word_char :: "char \<Rightarrow> bool" where
  "is_word_char c \<longleftrightarrow>
     c \<in> set ''abcdefghijklmnopqrstuvwxyzABCDEFGHIJKLMNOPQRSTUVWXYZ0123456789_''"

text \<open>
  \<open>/(\w+)\((\{[^}]+\})\)/\<close> tried at the start of a text: the two groups and the text
  after the match. Both repetitions are greedy and are followed by a character outside
  their class, so only the longest run can match.
\<close>

definition match_call_at :: "string \<Rightarrow> (string \<times> string \<times> string) option" where
  "match_call_at s =
     (let fname = takeWhile is_word_char s in
      if fname = [] then None
      else case dropWhile is_word_char s of
             c1 # c2 # r \<Rightarrow>
               if c1 = CHR ''('' \<and> c2 = CHR ''{'' then
                 (let body = takeWhile (\<lambda>c. c \<noteq> CHR ''}'') r in
                  if body = [] then None
                  else case dropWhile (\<lambda>c. c \<noteq> CHR ''}'') r of
                         d1 # d2 # rest \<Rightarrow>
                           if d1 = CHR ''}'' \<and> d2 = CHR '')''
                           then Some (fname, CHR ''{'' # body @ ''}'', rest) else None
                       | _ \<Rightarrow> None)
               else None
           | _ \<Rightarrow> None)"

text \<open>\<open>exec\<close> from a position on: the leftmost start at which the pattern matches.\<close>

fun exec_call :: "string \<Rightarrow> (string \<times> string \<times> string) option" where
  "exec_call [] = None"
| "exec_call (c # cs) =
     (case match_call_at (c # cs) of Some m \<Rightarrow> Some m | None \<Rightarrow> exec_call cs)"

text \<open>
  The lazy \<open>[\s\S]*?\<close> followed by a closing brace, a newline and three backquotes: the
  shortest body after which that closing text stands, and the text after the match.
\<close>

definition fence :: string where
  "fence = [CHR 0x60, CHR 0x60, CHR 0x60]"

fun lazy_body :: "string \<Rightarrow> (string \<times> string) option" where
  "lazy_body [] = None"
| "lazy_body (c # cs) =
     (if c = CHR ''}'' \<and> take 4 cs = newline @ fence then Some ([], drop 4 cs)
      else map_option (\<lambda>(b, r). (c # b, r)) (lazy_body cs))"

text \<open>The code block pattern (three backquotes, \<open>(\w+)\<close>, newline, \<open>(\{[\s\S]*?\})\<close>, newline, three backquotes) tried at the start of a text.\<close>

definition match_block_at :: "string \<Rightarrow> (string \<times> string \<times> string) option" where
  "match_block_at s =
     (if take 3 s \<noteq> fence then None
      else
        let fname = takeWhile is_word_char (drop 3 s) in
        if fname = [] then None
        else case dropWhile is_word_char (drop 3 s) of
               c1 # c2 # r \<Rightarrow>
                 if c1 = CHR 0x0A \<and> c2 = CHR ''{'' then
                   (case lazy_body r of
                      Some (body, rest) \<Rightarrow> Some (fname, CHR ''{'' # body @ ''}'', rest)
                    | None \<Rightarrow> None)
                 else None
             | _ \<Rightarrow> None)"

fun exec_block :: "string \<Rightarrow> (string \<times> string \<times> string) option" where
  "exec_block [] = None"
| "exec_block (c # cs) =
     (case match_block_at (c # cs) of Some m \<Rightarrow> Some m | None \<Rightarrow> exec_block cs)"

text \<open>
  The matches that the successive \<open>exec\<close> calls of a \<open>while\<close> loop return on the text
  until \<open>exec\<close> returns \<open>null\<close>: each call starts where the previous match ended
  (\<open>lastIndex\<close> of a global pattern). A match is the pair of its two groups.
\<close>

function call_matches :: "string \<Rightarrow> (string \<times> string) list" where
  "call_matches s =
     (case exec_call s of
        None \<Rightarrow> []
      | Some (functionName, argsStr, rest) \<Rightarrow> (functionName, argsStr) # call_matches rest)"
  by pat_completeness auto
termination
proof (relation "measure length")
  show "wf (measure (length :: string \<Rightarrow> nat))"
    by simp
next
  fix s :: string and x2 functionName y argsStr rest
  assume ex: "exec_call s = Some x2" and x2: "(functionName, y) = x2"
    and y: "(argsStr, rest) = y"
  have at: "length r < length t" if "match_call_at t = Some (f, a, r)" for t f a r
  proof -
    from that obtain c1 c2 u d1 d2 where
      1: "dropWhile is_word_char t = c1 # c2 # u" and
      2: "dropWhile (\<lambda>c. c \<noteq> CHR ''}'') u = d1 # d2 # r"
      by (auto simp: match_call_at_def Let_def split: if_splits list.splits)
    have "length (dropWhile is_word_char t) \<le> length t"
      by (rule length_dropWhile_le)
    moreover have "length (dropWhile (\<lambda>c. c \<noteq> CHR ''}'') u) \<le> length u"
      by (rule length_dropWhile_le)
    ultimately show ?thesis using 1 2 by simp
  qed
  have "length r < length t" if "exec_call t = Some (f, a, r)" for t f a r
    using that
  proof (induction t)
    case Nil
    then show ?case by simp
  next
    case (Cons c cs)
    then show ?case
      by (cases "match_call_at (c # cs)") (auto dest: at)
  qed
  with ex x2 [symmetric] y [symmetric] have "length rest < length s"
    by simp
  then show "(rest, s) \<in> measure length"
    by simp
qed

function block_matches :: "string \<Rightarrow> (string \<times> string) list" where
  "block_matches s =
     (case exec_block s of
        None \<Rightarrow> []
      | Some (functionName, argsStr, rest) \<Rightarrow> (functionName, argsStr) # block_matches rest)"
  by pat_completeness auto
termination
proof (relation "measure length")
  show "wf (measure (length :: string \<Rightarrow> nat))"
    by simp
next
  fix s :: string and x2 functionName y argsStr rest
  assume ex: "exec_block s = Some x2" and x2: "(functionName, y) = x2"
    and y: "(argsStr, rest) = y"
  have lz: "length r < length t" if "lazy_body t = Some (b, r)" for t b r
    using that
  proof (induction t arbitrary: b)
    case Nil
    then show ?case by simp
  next
    case (Cons c cs)
    then show ?case by (fastforce split: if_splits)
  qed
  have at: "length r < length t" if "match_block_at t = Some (f, a, r)" for t f a r
  proof -
    from that obtain c1 c2 u b where
      1: "dropWhile is_word_char (drop 3 t) = c1 # c2 # u" and
      2: "lazy_body u = Some (b, r)"
      by (auto simp: match_block_at_def Let_def split: if_splits list.splits option.splits)
    have "length (dropWhile is_word_char (drop 3 t)) \<le> length (drop 3 t)"
      by (rule length_dropWhile_le)
    then show ?thesis using 1 lz [OF 2] by simp
  qed
  have "length r < length t" if "exec_block t = Some (f, a, r)" for t f a r
    using that
  proof (induction t)
    case Nil
    then show ?case by simp
  next
    case (Cons c cs)
    then show ?case
      by (cases "match_block_at (c # cs)") (auto dest: at)
  qed
  with ex x2 [symmetric] y [symmetric] have "length rest < length s"
    by simp
  then show "(rest, s) \<in> measure length"
    by simp
qed

text \<open>
  What the tool handler uses from outside the repository: \<open>JSON.parse\<close> (\<open>None\<close> when it
  throws), \<open>JSON.stringify\<close>, and the text \<open>Math.random().toString(36).substr(2, 9)\<close>
  of the \<open>n\<close>-th draw.
\<close>

record 'j platform =
  json_parse :: "string \<Rightarrow> 'j option"
  json_stringify :: "'j \<Rightarrow> string"
  random_text :: "nat \<Rightarrow> string"

text \<open>The names registered in \<open>toolRegistry\<close> by its constructor (tools.ts).\<close>

definition default_tools :: "string list" where
  "default_tools =
     [''read_file'', ''write_file'', ''edit_file'', ''run_command'', ''list_directory'',
      ''search_files'', ''search_in_files'', ''web_search'', ''fetch_url'']"

text \<open>
  The body of either \<open>while\<close> loop for one match: a registered name whose arguments
  parse adds a call; any other match adds nothing.
\<close>

definition push_call ::
  "'j platform \<Rightarrow> string list \<Rightarrow> string \<Rightarrow> string \<Rightarrow> tool_call list \<Rightarrow> tool_call list" where
  "push_call pf registry functionName argsStr toolCalls =
     (if functionName \<in> set registry then
        (case json_parse pf argsStr of
           Some args \<Rightarrow>
             toolCalls @
               [\<lparr>tc_id = ''call_'' @ random_text pf (length toolCalls),
                 tc_function = \<lparr>fc_name = functionName,
                                 fc_arguments = json_stringify pf args\<rparr>\<rparr>]
         | None \<Rightarrow> toolCalls)
      else toolCalls)"

text \<open>A \<open>while\<close> loop: its body for each match in turn, on the one array \<open>toolCalls\<close>.\<close>

fun push_calls ::
  "'j platform \<Rightarrow> string list \<Rightarrow> (string \<times> string) list \<Rightarrow> tool_call list \<Rightarrow> tool_call list" where
  "push_calls pf registry [] toolCalls = toolCalls"
| "push_calls pf registry ((functionName, argsStr) # ms) toolCalls =
     push_calls pf registry ms (push_call pf registry functionName argsStr toolCalls)"

text \<open>
  \<open>extractToolCalls(message)\<close> for the registered tool names \<open>registry\<close>: the first loop
  over the call pattern, the second over the code block pattern, and \<open>undefined\<close>
  (\<open>None\<close>) for an empty result.
\<close>

definition extractToolCalls ::
  "'j platform \<Rightarrow> string list \<Rightarrow> message \<Rightarrow> tool_call list option" where
  "extractToolCalls pf registry msg =
     (if \<not> truthy (content msg) then None
      else
        let txt = or_empty (content msg);
            toolCalls = push_calls pf registry (block_matches txt)
                          (push_calls pf registry (call_matches txt) [])
        in if length toolCalls > 0 then Some toolCalls else None)"

section \<open>Notions used in the statements\<close>

text \<open>A message with a role and a content and no other field.\<close>

definition plain_message :: "string \<Rightarrow> string \<Rightarrow> message" where
  "plain_message r c =
     \<lparr>role = Some r, content = Some c, name = None, tool_calls = None, tool_call_id = None\<rparr>"

text \<open>
  The system prompt as the specification words it: the contents of all system-role
  messages, in order, joined by two newlines; absent when there is no system message.
\<close>

definition claimed_systemPrompt :: "message list \<Rightarrow> string option" where
  "claimed_systemPrompt msgs =
     (let sys = filter (\<lambda>m. role m = Some ''system'') msgs
      in if sys = [] then None
         else Some (join (newline @ newline) (map (\<lambda>m. or_empty (content m)) sys)))"

text \<open>The non-empty contents of the system-role messages, in order.\<close>

definition system_contents :: "message list \<Rightarrow> string list" where
  "system_contents msgs =
     map (\<lambda>m. or_empty (content m))
       (filter (\<lambda>m. role m = Some ''system'' \<and> truthy (content m)) msgs)"

text \<open>The history of a session before a call; empty for an unseen session id.\<close>

definition history :: "string \<Rightarrow> session_manager \<Rightarrow> message list" where
  "history k mgr = (case getSession k mgr of None \<Rightarrow> [] | Some s \<Rightarrow> messages s)"

text \<open>
  The operations that change the store, and the run of a sequence of them: the states a
  session manager can be in.
\<close>

datatype manager_op =
    Op_processMessages int "message list" "string option"
  | Op_addAssistantResponse int string message
  | Op_setThreadId string string
  | Op_deleteSession string
  | Op_cleanup int
  | Op_clear

fun apply_op :: "manager_op \<Rightarrow> session_manager \<Rightarrow> session_manager" where
  "apply_op (Op_processMessages now msgs sid) mgr = snd (processMessages now msgs sid mgr)"
| "apply_op (Op_addAssistantResponse now k msg) mgr = addAssistantResponse now k msg mgr"
| "apply_op (Op_setThreadId k tid) mgr = setThreadId k tid mgr"
| "apply_op (Op_deleteSession k) mgr = snd (deleteSession k mgr)"
| "apply_op (Op_cleanup now) mgr = cleanup now mgr"
| "apply_op Op_clear mgr = clear mgr"

fun run_ops :: "manager_op list \<Rightarrow> session_manager \<Rightarrow> session_manager" where
  "run_ops [] mgr = mgr"
| "run_ops (op # ops) mgr = run_ops ops (apply_op op mgr)"

definition counts_consistent :: "session_manager \<Rightarrow> bool" where
  "counts_consistent mgr \<longleftrightarrow>
     (\<forall>(k, s) \<in> set (sessions mgr). messageCount s = length (messages s))"

text \<open>A match is valid when its name is registered and its argument text parses.\<close>

definition valid_match :: "'j platform \<Rightarrow> string list \<Rightarrow> string \<times> string \<Rightarrow> bool" where
  "valid_match pf registry m \<longleftrightarrow> fst m \<in> set registry \<and> json_parse pf (snd m) \<noteq> None"

text \<open>The example text of the specification, bare and in backquotes, and its argument text.\<close>

definition example_args :: string where
  "example_args = ''{\"path\":\"a.txt\"}''"

definition example_text :: string where
  "example_text = ''read_file('' @ example_args @ '')''"

definition example_text_quoted :: string where
  "example_text_quoted = [CHR 0x60] @ example_text @ [CHR 0x60]"

text \<open>
  Two sessions, made by two requests to a new manager (TTL one hour): \<open>s1\<close> at time 10
  and \<open>s2\<close> at time 20.
\<close>

definition two_sessions :: session_manager where
  "two_sessions =
     snd (processMessages 20 [plain_message ''user'' ''B''] (Some ''s2'')
            (snd (processMessages 10 [plain_message ''user'' ''A''] (Some ''s1'')
                    (SessionManager None))))"

text \<open>
  Two sessions of a new manager (TTL one hour): at time 3600001, \<open>s1\<close> was last active
  one millisecond more than the TTL ago, and \<open>s2\<close> just now.
\<close>

definition old_and_fresh :: session_manager where
  "old_and_fresh =
     snd (processMessages 3600001 [plain_message ''user'' ''B''] (Some ''s2'')
            (snd (processMessages 0 [plain_message ''user'' ''A''] (Some ''s1'')
                    (SessionManager None))))"

text \<open>
  A platform for the examples: its \<open>JSON.parse\<close> accepts the argument text of the
  example (and, to keep it small, nothing else) and gives the text itself as the value.
\<close>

definition example_platform :: "string platform" where
  "example_platform =
     \<lparr>json_parse = (\<lambda>s. if s = example_args then Some s else None),
      json_stringify = (\<lambda>v. v),
      random_text = (\<lambda>n. ''r'' @ string_of_nat n)\<rparr>"

text \<open>
  Three runs of the SDK, whatever the prompt: one delivers an \<open>error\<close> event and ends;
  one delivers an \<open>error\<close> event and then a text item; one delivers the text \<open>Hello\<close>
  and a usage. All are on thread \<open>t1\<close> and none throws.
\<close>

definition error_only :: "string option \<Rightarrow> string \<Rightarrow> codex_run" where
  "error_only resume prompt =
     \<lparr>run_thread_id = Some ''t1'', run_events = [Error_event (Some ''boom'')],
      run_thrown = None\<rparr>"

definition error_then_text :: "string option \<Rightarrow> string \<Rightarrow> codex_run" where
  "error_then_text resume prompt =
     \<lparr>run_thread_id = Some ''t1'',
      run_events = [Error_event (Some ''boom''), Item_completed (Some (Text_item (Some ''late'')))],
      run_thrown = None\<rparr>"

definition says_hello :: "string option \<Rightarrow> string \<Rightarrow> codex_run" where
  "says_hello resume prompt =
     \<lparr>run_thread_id = Some ''t1'',
      run_events = [Item_completed (Some (Text_item (Some ''Hello''))),
                    Turn_completed (Some \<lparr>inputTokens = Some 3, outputTokens = Some 1\<rparr>)],
      run_thrown = None\<rparr>"

section \<open>Facts about the functions\<close>

declare call_matches.simps [simp del] block_matches.simps [simp del]

lemma truthy_iff: "truthy v \<longleftrightarrow> v \<noteq> None \<and> v \<noteq> Some []"
  by (cases v) (simp_all add: truthy_def)

subsection \<open>validateMessages\<close>

lemma validate_from_valid:
  "valid (validate_from i ms) \<longleftrightarrow>
     \<not> (\<exists>m \<in> set ms. role m = None
          \<or> (\<exists>r. role m = Some r \<and> r \<notin> {''system'', ''user'', ''assistant'', ''tool''})
          \<or> (role m = Some ''user'' \<and> (content m = None \<or> content m = Some '''')))"
  by (induction ms arbitrary: i)
     (auto simp: truthy_def or_empty_def validRoles_def split: option.splits)

lemma validate_from_error:
  "error (validate_from i ms) = None \<longleftrightarrow> valid (validate_from i ms)"
  by (induction ms arbitrary: i) auto

text \<open>
  Claim C3. \<open>validateMessages\<close> returns invalid exactly when the list is empty, or an
  entry has no role, or an entry's role is none of system, user, assistant, tool, or a
  user entry has empty content (absent, or the empty string). An error text comes with
  exactly the invalid results. The list of the one user message with content \<open>""\<close> is
  rejected, with the message for a user message without content.
\<close>

theorem validateMessages_invalid_iff:
  "(\<not> valid (validateMessages msgs)) =
     (msgs = [] \<or>
      (\<exists>m \<in> set msgs.
         role m = None
         \<or> (\<exists>r. role m = Some r \<and> r \<notin> {''system'', ''user'', ''assistant'', ''tool''})
         \<or> (role m = Some ''user'' \<and> (content m = None \<or> content m = Some ''''))))
   \<and> (valid (validateMessages msgs) = (error (validateMessages msgs) = None))
   \<and> validateMessages [plain_message ''user'' '''']
       = \<lparr>valid = False, error = Some ''User message at index 0 missing content''\<rparr>"
proof (intro conjI)
  show "(\<not> valid (validateMessages msgs)) =
     (msgs = [] \<or>
      (\<exists>m \<in> set msgs.
         role m = None
         \<or> (\<exists>r. role m = Some r \<and> r \<notin> {''system'', ''user'', ''assistant'', ''tool''})
         \<or> (role m = Some ''user'' \<and> (content m = None \<or> content m = Some ''''))))"
    by (cases "msgs = []") (simp_all add: validateMessages_def validate_from_valid)
  show "valid (validateMessages msgs) = (error (validateMessages msgs) = None)"
    by (simp add: validateMessages_def validate_from_error)
  show "validateMessages [plain_message ''user'' '''']
       = \<lparr>valid = False, error = Some ''User message at index 0 missing content''\<rparr>"
    by (simp add: validateMessages_def plain_message_def truthy_def or_empty_def validRoles_def)
qed

subsection \<open>messagesToPrompt\<close>

lemma prompt_loop_fst:
  "fst (prompt_loop ms sys conv) = sys @ system_contents ms"
  by (induction ms arbitrary: sys conv) (auto simp: system_contents_def)

text \<open>
  Claim C5, as stated, fails: a system message whose content is the empty string is a
  system message of the list, and joining the contents of the system messages gives the
  empty string, but \<open>messagesToPrompt\<close> returns no system prompt, because the loop
  collects a system message only when its content is truthy.
\<close>

theorem systemPrompt_absent_for_empty_system_message:
  "snd (messagesToPrompt [plain_message ''system'' '''']) = None
   \<and> claimed_systemPrompt [plain_message ''system'' ''''] = Some ''''"
  by (simp add: messagesToPrompt_def claimed_systemPrompt_def plain_message_def truthy_def
      or_empty_def)

text \<open>
  Claim C5, amended. For every message list, the system prompt returned by
  \<open>messagesToPrompt\<close> is the join, by two newlines, of the non-empty contents of the
  system-role messages in their original order, and it is absent exactly when no
  system-role message has a non-empty content.
\<close>

theorem messagesToPrompt_systemPrompt:
  "snd (messagesToPrompt msgs) =
     (if system_contents msgs = [] then None
      else Some (join (newline @ newline) (system_contents msgs)))
   \<and> ((snd (messagesToPrompt msgs) = None) =
       (\<not> (\<exists>m \<in> set msgs. role m = Some ''system'' \<and> content m \<noteq> None
                              \<and> content m \<noteq> Some '''')))"
proof -
  have sp: "snd (messagesToPrompt msgs) =
     (if system_contents msgs = [] then None
      else Some (join (newline @ newline) (system_contents msgs)))"
    using prompt_loop_fst [of msgs "[]" "[]"]
    by (cases "prompt_loop msgs [] []") (simp add: messagesToPrompt_def)
  have "(system_contents msgs = []) =
       (\<not> (\<exists>m \<in> set msgs. role m = Some ''system'' \<and> content m \<noteq> None
                              \<and> content m \<noteq> Some ''''))"
    by (simp add: system_contents_def filter_empty_conv truthy_iff)
  with sp show ?thesis by simp
qed

subsection \<open>processMessages\<close>

lemma push_messages_messages:
  "messages (push_messages ms s) = messages s @ filter (\<lambda>m. role m \<noteq> Some ''system'') ms"
  by (induction ms arbitrary: s) auto

lemma push_messages_count:
  "messageCount (push_messages ms s) =
     messageCount s + length (filter (\<lambda>m. role m \<noteq> Some ''system'') ms)"
  by (induction ms arbitrary: s) auto

lemma push_messages_lastActive: "lastActive (push_messages ms s) = lastActive s"
  by (induction ms arbitrary: s) auto

text \<open>
  Claim C4, as stated, fails for the session id \<open>""\<close>: it is a string the caller
  passed, but the guard \<open>if (!sessionId)\<close> treats it like a missing one. The messages
  come back unchanged with no session id, and no session is created.
\<close>

theorem processMessages_empty_sessionId:
  "processMessages 0 [plain_message ''user'' ''hi''] (Some '''') (SessionManager None)
     = (([plain_message ''user'' ''hi''], None), SessionManager None)"
  by (simp add: processMessages_def truthy_def)

text \<open>
  Claim C4, amended. For every message list and every non-empty session id,
  \<open>processMessages\<close> looks the session up or creates it, appends every non-system entry
  of the list to its history in order, sets \<open>lastActive\<close> to the current time, and
  returns the whole history (the prior messages followed by the new ones) together with
  the session id; no other session changes. The empty string as session id is treated
  like an absent one: the input comes back unchanged, with no session id, and the store
  is untouched.
\<close>

theorem processMessages_nonempty_sessionId:
  "(sid \<noteq> [] \<longrightarrow>
      fst (processMessages now msgs (Some sid) mgr)
        = (history sid mgr @ filter (\<lambda>m. role m \<noteq> Some ''system'') msgs, Some sid)
      \<and> (\<exists>s. getSession sid (snd (processMessages now msgs (Some sid) mgr)) = Some s
             \<and> messages s = history sid mgr @ filter (\<lambda>m. role m \<noteq> Some ''system'') msgs
             \<and> lastActive s = now)
      \<and> (\<forall>k. k \<noteq> sid \<longrightarrow>
             getSession k (snd (processMessages now msgs (Some sid) mgr)) = getSession k mgr))
   \<and> processMessages now msgs (Some []) mgr = ((msgs, None), mgr)
   \<and> processMessages now msgs None mgr = ((msgs, None), mgr)"
proof (intro conjI impI allI)
  assume sid: "sid \<noteq> []"
  show "fst (processMessages now msgs (Some sid) mgr)
        = (history sid mgr @ filter (\<lambda>m. role m \<noteq> Some ''system'') msgs, Some sid)"
    using sid
    by (simp add: processMessages_def truthy_def or_empty_def Let_def history_def
        getSession_def push_messages_messages split: option.splits)
  show "\<exists>s. getSession sid (snd (processMessages now msgs (Some sid) mgr)) = Some s
             \<and> messages s = history sid mgr @ filter (\<lambda>m. role m \<noteq> Some ''system'') msgs
             \<and> lastActive s = now"
    using sid
    by (simp add: processMessages_def truthy_def or_empty_def Let_def history_def
        getSession_def push_messages_messages push_messages_lastActive update_conv'
        split: option.splits)
next
  fix k
  assume "sid \<noteq> []" "k \<noteq> sid"
  then show "getSession k (snd (processMessages now msgs (Some sid) mgr)) = getSession k mgr"
    by (simp add: processMessages_def truthy_def or_empty_def Let_def getSession_def
        update_conv')
next
  show "processMessages now msgs (Some []) mgr = ((msgs, None), mgr)"
    by (simp add: processMessages_def truthy_def)
  show "processMessages now msgs None mgr = ((msgs, None), mgr)"
    by (simp add: processMessages_def truthy_def)
qed

text \<open>
  The theorem at work: a first request with message A, then a request with a system
  message and message B on the same session, returns A and B in that order.
\<close>

theorem processMessages_two_turns:
  "fst (processMessages 2 [plain_message ''system'' ''S'', plain_message ''user'' ''B'']
         (Some ''s1'')
         (snd (processMessages 1 [plain_message ''user'' ''A''] (Some ''s1'')
                 (SessionManager None))))
     = ([plain_message ''user'' ''A'', plain_message ''user'' ''B''], Some ''s1'')"
proof -
  let ?m1 = "snd (processMessages 1 [plain_message ''user'' ''A''] (Some ''s1'') (SessionManager None))"
  have h: "history ''s1'' ?m1 = [plain_message ''user'' ''A'']"
    by (simp add: history_def getSession_def processMessages_def truthy_def or_empty_def
        SessionManager_def plain_message_def Let_def)
  have "''s1'' \<noteq> []" by simp
  with processMessages_nonempty_sessionId [of "''s1''" 2
      "[plain_message ''system'' ''S'', plain_message ''user'' ''B'']" ?m1]
  have "fst (processMessages 2 [plain_message ''system'' ''S'', plain_message ''user'' ''B'']
         (Some ''s1'') ?m1)
     = (history ''s1'' ?m1 @ filter (\<lambda>m. role m \<noteq> Some ''system'')
          [plain_message ''system'' ''S'', plain_message ''user'' ''B''], Some ''s1'')"
    by blast
  then show ?thesis
    unfolding h by (simp add: plain_message_def)
qed

subsection \<open>setThreadId\<close>

lemma getSession_setThreadId:
  "getSession k mgr = Some s \<Longrightarrow>
     getSession k (setThreadId k t mgr) = Some (s\<lparr>threadId := t\<rparr>)"
  by (simp add: getSession_def setThreadId_def update_conv')

lemma setThreadId_twice:
  "getSession k mgr = Some s \<Longrightarrow>
     setThreadId k t2 (setThreadId k t1 mgr) = setThreadId k t2 mgr"
  by (simp add: getSession_def setThreadId_def update_conv')

lemma two_sessions_eq:
  "two_sessions =
     \<lparr>sessions =
        [(''s1'', \<lparr>sessionId = ''s1'', threadId = [], messages = [plain_message ''user'' ''A''],
                   createdAt = 10, lastActive = 10, messageCount = 1\<rparr>),
         (''s2'', \<lparr>sessionId = ''s2'', threadId = [], messages = [plain_message ''user'' ''B''],
                   createdAt = 20, lastActive = 20, messageCount = 1\<rparr>)],
      defaultTTL = 3600000\<rparr>"
  by (simp add: two_sessions_def processMessages_def SessionManager_def truthy_def or_empty_def
      Let_def plain_message_def)

text \<open>
  Claim C6. For a session that exists, \<open>setThreadId\<close> is idempotent and the last write
  wins: a second call with the same thread id changes nothing and the stored thread id
  is that id; a later call with another thread id replaces the stored one.
\<close>

theorem setThreadId_idempotent_last_write_wins:
  assumes "getSession k mgr = Some s"
  shows "setThreadId k t (setThreadId k t mgr) = setThreadId k t mgr
       \<and> getSession k (setThreadId k t (setThreadId k t mgr)) = Some (s\<lparr>threadId := t\<rparr>)
       \<and> getThreadId k (setThreadId k t (setThreadId k t mgr)) = Some t
       \<and> getSession k (setThreadId k t2 (setThreadId k t1 mgr)) = Some (s\<lparr>threadId := t2\<rparr>)
       \<and> getThreadId k (setThreadId k t2 (setThreadId k t1 mgr)) = Some t2"
proof -
  have tw: "setThreadId k b (setThreadId k a mgr) = setThreadId k b mgr" for a b
    using assms by (rule setThreadId_twice)
  have g: "getSession k (setThreadId k b mgr) = Some (s\<lparr>threadId := b\<rparr>)" for b
    using assms by (rule getSession_setThreadId)
  have th: "getThreadId k (setThreadId k b mgr) = Some b" for b
    using g [of b] by (simp add: getThreadId_def getSession_def)
  show ?thesis
    by (simp add: tw g th)
qed

text \<open>The theorem on session \<open>s1\<close>: bound to \<open>t1\<close> twice, then to \<open>t2\<close>.\<close>

theorem setThreadId_bind_twice_then_rebind:
  "getThreadId ''s1'' (setThreadId ''s1'' ''t1'' (setThreadId ''s1'' ''t1'' two_sessions)) = Some ''t1''
   \<and> getThreadId ''s1'' (setThreadId ''s1'' ''t2'' (setThreadId ''s1'' ''t1'' two_sessions)) = Some ''t2''"
proof -
  have "\<exists>s. getSession ''s1'' two_sessions = Some s"
    by (simp add: two_sessions_eq getSession_def)
  then obtain s where "getSession ''s1'' two_sessions = Some s" ..
  from setThreadId_idempotent_last_write_wins [OF this] show ?thesis by blast
qed

text \<open>
  Claim C10. \<open>setThreadId\<close> for a session id that is not in the store changes nothing:
  the manager after the call is the manager before it (no session is created, none is
  modified). The function has no failing path, so nothing is thrown.
\<close>

theorem setThreadId_unknown_session:
  "getSession k mgr = None \<Longrightarrow> setThreadId k tid mgr = mgr"
  by (simp add: getSession_def setThreadId_def)

text \<open>The theorem on the unknown session id \<open>s3\<close>.\<close>

theorem setThreadId_unknown_session_example:
  "getSession ''s3'' two_sessions = None \<and> setThreadId ''s3'' ''t1'' two_sessions = two_sessions"
proof -
  have n: "getSession ''s3'' two_sessions = None"
    by (simp add: two_sessions_eq getSession_def)
  from n setThreadId_unknown_session [OF n] show ?thesis by simp
qed

subsection \<open>cleanup\<close>

lemma cleanup_loop_filter:
  "cleanup_loop now ttl es store =
     filter (\<lambda>p. fst p \<notin> set (map fst (filter (\<lambda>e. now > lastActive (snd e) + ttl) es))) store"
proof (induction es arbitrary: store)
  case Nil
  then show ?case by simp
next
  case (Cons e es)
  obtain k s where e: "e = (k, s)" by (cases e)
  show ?case
    by (simp add: e Cons.IH AList.delete_eq case_prod_unfold conj_commute eq_commute [of k])
qed

lemma cleanup_removes:
  assumes "getSession k mgr = Some s" "lastActive s + defaultTTL mgr < now"
  shows "k \<notin> fst ` set (sessions (cleanup now mgr))"
proof -
  have "(k, s) \<in> set (sessions mgr)"
    using assms(1) by (auto simp: getSession_def dest: map_of_SomeD)
  then have "k \<in> set (map fst (filter (\<lambda>e. now > lastActive (snd e) + defaultTTL mgr) (sessions mgr)))"
    using assms(2) by force
  then have "\<forall>p \<in> set (sessions (cleanup now mgr)). fst p \<noteq> k"
    unfolding cleanup_def cleanup_loop_filter by fastforce
  then show ?thesis by blast
qed

lemma cleanup_keeps:
  assumes d: "distinct (map fst (sessions mgr))"
    and g: "getSession k mgr = Some s" and l: "\<not> now > lastActive s + defaultTTL mgr"
  shows "getSession k (cleanup now mgr) = Some s"
proof -
  let ?E = "set (map fst (filter (\<lambda>e. now > lastActive (snd e) + defaultTTL mgr) (sessions mgr)))"
  have "k \<notin> ?E"
  proof
    assume "k \<in> ?E"
    then obtain s' where s': "(k, s') \<in> set (sessions mgr)" "now > lastActive s' + defaultTTL mgr"
      by auto
    from d s'(1) have "map_of (sessions mgr) k = Some s'" by simp
    with g have "s' = s" by (simp add: getSession_def)
    with s'(2) l show False by simp
  qed
  then have "map_of (filter (\<lambda>(x, y). x \<notin> ?E) (sessions mgr)) k = Some s"
    using g by (intro map_of_filter_in) (auto simp: getSession_def)
  then show ?thesis
    by (simp add: getSession_def cleanup_def cleanup_loop_filter case_prod_unfold)
qed

lemma listSessions_ids: "session_id ` set (listSessions mgr) = fst ` set (sessions mgr)"
  by (force simp: listSessions_def)

lemma getSession_None_iff: "getSession k mgr = None \<longleftrightarrow> k \<notin> fst ` set (sessions mgr)"
  by (simp add: getSession_def map_of_eq_None_iff)

lemma old_and_fresh_eq:
  "old_and_fresh =
     \<lparr>sessions =
        [(''s1'', \<lparr>sessionId = ''s1'', threadId = [], messages = [plain_message ''user'' ''A''],
                   createdAt = 0, lastActive = 0, messageCount = 1\<rparr>),
         (''s2'', \<lparr>sessionId = ''s2'', threadId = [], messages = [plain_message ''user'' ''B''],
                   createdAt = 3600001, lastActive = 3600001, messageCount = 1\<rparr>)],
      defaultTTL = 3600000\<rparr>"
  by (simp add: old_and_fresh_def processMessages_def SessionManager_def truthy_def or_empty_def
      Let_def plain_message_def)

text \<open>Every state the manager reaches has distinct keys, as a \<open>Map\<close> has.\<close>

lemma distinct_keys_apply_op:
  assumes "distinct (map fst (sessions mgr))"
  shows "distinct (map fst (sessions (apply_op op mgr)))"
proof (cases op)
  case (Op_processMessages now msgs sid)
  with assms show ?thesis
    by (simp add: processMessages_def Let_def distinct_update)
next
  case (Op_addAssistantResponse now k msg)
  with assms show ?thesis
    by (simp add: addAssistantResponse_def distinct_update split: option.splits)
next
  case (Op_setThreadId k tid)
  with assms show ?thesis
    by (simp add: setThreadId_def distinct_update split: option.splits)
next
  case (Op_deleteSession k)
  with assms show ?thesis
    by (simp add: deleteSession_def distinct_delete)
next
  case (Op_cleanup now)
  with assms show ?thesis
    by (simp add: cleanup_def cleanup_loop_filter distinct_map_filter)
next
  case Op_clear
  then show ?thesis by (simp add: clear_def)
qed

lemma distinct_keys_run_ops:
  "distinct (map fst (sessions mgr)) \<Longrightarrow> distinct (map fst (sessions (run_ops ops mgr)))"
  by (induction ops arbitrary: mgr) (simp_all add: distinct_keys_apply_op)

lemma distinct_keys_reachable:
  "distinct (map fst (sessions (run_ops ops (SessionManager ttl))))"
  by (rule distinct_keys_run_ops) (simp add: SessionManager_def)

text \<open>
  Claim C7. After one \<open>cleanup\<close> at time \<open>now\<close>, every session with
  \<open>lastActive + TTL < now\<close> is gone from the store and from \<open>listSessions\<close>, and every
  session with \<open>lastActive = now\<close> is still there, unchanged. The store is a \<open>Map\<close>, so
  its keys are distinct; the TTL is a duration, taken as not negative for the session
  that survives.
\<close>

theorem cleanup_sweep:
  assumes "distinct (map fst (sessions mgr))"
  shows "(\<forall>k s. getSession k mgr = Some s \<and> lastActive s + defaultTTL mgr < now \<longrightarrow>
            getSession k (cleanup now mgr) = None
            \<and> k \<notin> session_id ` set (listSessions (cleanup now mgr)))
       \<and> (\<forall>k s. getSession k mgr = Some s \<and> lastActive s = now \<and> 0 \<le> defaultTTL mgr \<longrightarrow>
            getSession k (cleanup now mgr) = Some s
            \<and> k \<in> session_id ` set (listSessions (cleanup now mgr)))"
proof (intro conjI allI impI)
  fix k s
  assume "getSession k mgr = Some s \<and> lastActive s + defaultTTL mgr < now"
  then have "k \<notin> fst ` set (sessions (cleanup now mgr))"
    by (elim conjE) (rule cleanup_removes)
  then show "getSession k (cleanup now mgr) = None"
    and "k \<notin> session_id ` set (listSessions (cleanup now mgr))"
    by (simp_all add: getSession_None_iff listSessions_ids)
next
  fix k s
  assume a: "getSession k mgr = Some s \<and> lastActive s = now \<and> 0 \<le> defaultTTL mgr"
  then have "\<not> now > lastActive s + defaultTTL mgr" by simp
  with assms a show g: "getSession k (cleanup now mgr) = Some s"
    by (auto intro: cleanup_keeps)
  then have "getSession k (cleanup now mgr) \<noteq> None" by simp
  then show "k \<in> session_id ` set (listSessions (cleanup now mgr))"
    by (simp only: getSession_None_iff listSessions_ids not_not)
qed

text \<open>
  The theorem on the two sessions of \<open>old_and_fresh\<close>, swept at time 3600001: \<open>s1\<close>
  (last active at \<open>now - TTL - 1\<close>) is no longer listed, \<open>s2\<close> (last active at \<open>now\<close>) is.
\<close>

theorem cleanup_sweep_example:
  "''s1'' \<notin> session_id ` set (listSessions (cleanup 3600001 old_and_fresh))
   \<and> ''s2'' \<in> session_id ` set (listSessions (cleanup 3600001 old_and_fresh))"
proof -
  have d: "distinct (map fst (sessions old_and_fresh))"
    by (simp add: old_and_fresh_eq)
  have 1: "\<exists>s. getSession ''s1'' old_and_fresh = Some s \<and> lastActive s + defaultTTL old_and_fresh < 3600001"
    by (simp add: old_and_fresh_eq getSession_def)
  have 2: "\<exists>s. getSession ''s2'' old_and_fresh = Some s \<and> lastActive s = 3600001 \<and> 0 \<le> defaultTTL old_and_fresh"
    by (simp add: old_and_fresh_eq getSession_def)
  from cleanup_sweep [OF d, of 3600001] 1 2 show ?thesis
    by blast
qed

subsection \<open>The message count\<close>

lemma set_update_subset:
  "set (AList.update k v al) \<subseteq> insert (k, v) (set al)"
  by (induction al) auto

lemma counts_consistent_update:
  assumes "counts_consistent mgr" "messageCount s = length (messages s)"
  shows "counts_consistent (mgr\<lparr>sessions := AList.update k s (sessions mgr)\<rparr>)"
proof -
  have "set (AList.update k s (sessions mgr)) \<subseteq> insert (k, s) (set (sessions mgr))"
    by (rule set_update_subset)
  with assms show ?thesis
    by (fastforce simp: counts_consistent_def)
qed

lemma counts_consistent_lookup:
  "counts_consistent mgr \<Longrightarrow> map_of (sessions mgr) k = Some s \<Longrightarrow>
     messageCount s = length (messages s)"
  by (auto simp: counts_consistent_def dest: map_of_SomeD)

lemma counts_consistent_subset:
  "counts_consistent mgr \<Longrightarrow> set xs \<subseteq> set (sessions mgr) \<Longrightarrow>
     counts_consistent (mgr\<lparr>sessions := xs\<rparr>)"
  by (auto simp: counts_consistent_def)

lemma counts_consistent_processMessages:
  assumes "counts_consistent mgr"
  shows "counts_consistent (snd (processMessages now msgs sid mgr))"
proof (cases "truthy sid")
  case False
  with assms show ?thesis by (simp add: processMessages_def)
next
  case True
  let ?k = "or_empty sid"
  define s0 where "s0 = (case map_of (sessions mgr) ?k of
                    Some s \<Rightarrow> s
                  | None \<Rightarrow> \<lparr>sessionId = ?k, threadId = [], messages = [],
                             createdAt = now, lastActive = now, messageCount = 0\<rparr>)"
  have "messageCount s0 = length (messages s0)"
    using assms by (auto simp: s0_def dest: counts_consistent_lookup split: option.splits)
  then have "messageCount (push_messages msgs (s0\<lparr>lastActive := now\<rparr>))
           = length (messages (push_messages msgs (s0\<lparr>lastActive := now\<rparr>)))"
    by (simp add: push_messages_messages push_messages_count)
  with assms have "counts_consistent
      (mgr\<lparr>sessions := AList.update ?k (push_messages msgs (s0\<lparr>lastActive := now\<rparr>)) (sessions mgr)\<rparr>)"
    by (rule counts_consistent_update)
  with True show ?thesis
    by (simp add: processMessages_def Let_def s0_def)
qed

lemma counts_consistent_addAssistantResponse:
  assumes "counts_consistent mgr"
  shows "counts_consistent (addAssistantResponse now k msg mgr)"
proof (cases "map_of (sessions mgr) k")
  case None
  with assms show ?thesis by (simp add: addAssistantResponse_def)
next
  case (Some s)
  with assms have "messageCount s = length (messages s)"
    by (auto dest: counts_consistent_lookup)
  then have "counts_consistent (mgr\<lparr>sessions := AList.update k
      (s\<lparr>messages := messages s @ [msg], messageCount := messageCount s + 1, lastActive := now\<rparr>)
      (sessions mgr)\<rparr>)"
    by (intro counts_consistent_update assms) simp
  with Some show ?thesis by (simp add: addAssistantResponse_def)
qed

lemma counts_consistent_setThreadId:
  assumes "counts_consistent mgr"
  shows "counts_consistent (setThreadId k tid mgr)"
proof (cases "map_of (sessions mgr) k")
  case None
  with assms show ?thesis by (simp add: setThreadId_def)
next
  case (Some s)
  with assms have "messageCount s = length (messages s)"
    by (auto dest: counts_consistent_lookup)
  then have "counts_consistent (mgr\<lparr>sessions := AList.update k (s\<lparr>threadId := tid\<rparr>) (sessions mgr)\<rparr>)"
    by (intro counts_consistent_update assms) simp
  with Some show ?thesis by (simp add: setThreadId_def)
qed

lemma counts_consistent_apply_op:
  assumes "counts_consistent mgr"
  shows "counts_consistent (apply_op op mgr)"
proof (cases op)
  case (Op_processMessages now msgs sid)
  with assms show ?thesis by (simp add: counts_consistent_processMessages)
next
  case (Op_addAssistantResponse now k msg)
  with assms show ?thesis by (simp add: counts_consistent_addAssistantResponse)
next
  case (Op_setThreadId k tid)
  with assms show ?thesis by (simp add: counts_consistent_setThreadId)
next
  case (Op_deleteSession k)
  with assms show ?thesis
    by (simp add: deleteSession_def counts_consistent_subset AList.delete_eq)
next
  case (Op_cleanup now)
  with assms show ?thesis
    by (simp add: cleanup_def cleanup_loop_filter counts_consistent_subset)
next
  case Op_clear
  then show ?thesis by (simp add: clear_def counts_consistent_def)
qed

lemma counts_consistent_run_ops:
  "counts_consistent mgr \<Longrightarrow> counts_consistent (run_ops ops mgr)"
  by (induction ops arbitrary: mgr) (simp_all add: counts_consistent_apply_op)

lemma map_of_filter_key_Some:
  "map_of (filter (\<lambda>p. P (fst p)) xs) k = Some v \<Longrightarrow> map_of xs k = Some v"
  by (simp add: map_of_filter restrict_map_def split: if_splits)

text \<open>No operation takes a message out of the history of a session it keeps.\<close>

lemma apply_op_history_grows:
  assumes "getSession k mgr = Some s" "getSession k (apply_op op mgr) = Some s'"
  shows "\<exists>ys. messages s' = messages s @ ys"
proof (cases op)
  case (Op_processMessages now msgs sid)
  with assms show ?thesis
    by (cases "k = or_empty sid")
       (auto simp: processMessages_def getSession_def Let_def update_conv'
          push_messages_messages split: if_splits)
next
  case (Op_addAssistantResponse now k' msg)
  with assms show ?thesis
    by (cases "k = k'")
       (auto simp: addAssistantResponse_def getSession_def update_conv' split: option.splits)
next
  case (Op_setThreadId k' tid)
  with assms show ?thesis
    by (cases "k = k'")
       (auto simp: setThreadId_def getSession_def update_conv' split: option.splits)
next
  case (Op_deleteSession k')
  with assms show ?thesis
    by (cases "k = k'") (auto simp: deleteSession_def getSession_def delete_conv')
next
  case (Op_cleanup now)
  from assms(2) have "map_of (filter (\<lambda>p. fst p \<notin> set (map fst (filter (\<lambda>e. now > lastActive (snd e) + defaultTTL mgr) (sessions mgr)))) (sessions mgr)) k = Some s'"
    by (simp add: Op_cleanup getSession_def cleanup_def cleanup_loop_filter)
  then have "map_of (sessions mgr) k = Some s'"
    by (rule map_of_filter_key_Some)
  with assms(1) show ?thesis
    by (simp add: getSession_def)
next
  case Op_clear
  with assms show ?thesis by (simp add: clear_def getSession_def)
qed

text \<open>
  Claim C9. In every state the session manager reaches from its construction by any
  sequence of its operations, every session's \<open>messageCount\<close> is the length of its
  \<open>messages\<close>; every operation keeps that. A session is created with count 0 and an empty
  history; \<open>processMessages\<close> raises the count by the number of messages it appends, and
  \<open>addAssistantResponse\<close> appends one message and raises the count by one; an operation
  that keeps a session only ever extends its history. (Callers only read the array that
  \<open>processMessages\<close> returns, which is the history itself.)
\<close>

theorem messageCount_is_history_length:
  "counts_consistent (run_ops ops (SessionManager ttl))
   \<and> (counts_consistent mgr \<longrightarrow> counts_consistent (apply_op op mgr))
   \<and> (k \<noteq> [] \<and> getSession k mgr = None \<longrightarrow>
        (\<exists>s. getSession k (snd (processMessages now [] (Some k) mgr)) = Some s
              \<and> messageCount s = 0 \<and> messages s = []))
   \<and> (k \<noteq> [] \<and> getSession k mgr = Some s \<longrightarrow>
        (\<exists>s'. getSession k (snd (processMessages now msgs (Some k) mgr)) = Some s'
              \<and> messageCount s' = messageCount s + (length (messages s') - length (messages s))
              \<and> length (messages s) \<le> length (messages s')))
   \<and> (getSession k mgr = Some s \<longrightarrow>
        (\<exists>s'. getSession k (addAssistantResponse now k msg mgr) = Some s'
              \<and> messages s' = messages s @ [msg] \<and> messageCount s' = messageCount s + 1))
   \<and> (getSession k mgr = Some s \<and> getSession k (apply_op op mgr) = Some s' \<longrightarrow>
        (\<exists>ys. messages s' = messages s @ ys))"
proof (intro conjI impI)
  have "counts_consistent (SessionManager ttl)"
    by (simp add: counts_consistent_def SessionManager_def)
  then show "counts_consistent (run_ops ops (SessionManager ttl))"
    by (rule counts_consistent_run_ops)
  show "counts_consistent (apply_op op mgr)" if "counts_consistent mgr"
    using that by (rule counts_consistent_apply_op)
  show "\<exists>s. getSession k (snd (processMessages now [] (Some k) mgr)) = Some s
              \<and> messageCount s = 0 \<and> messages s = []"
    if "k \<noteq> [] \<and> getSession k mgr = None"
    using that
    by (simp add: processMessages_def getSession_def truthy_def or_empty_def update_conv')
  show "\<exists>s'. getSession k (snd (processMessages now msgs (Some k) mgr)) = Some s'
              \<and> messageCount s' = messageCount s + (length (messages s') - length (messages s))
              \<and> length (messages s) \<le> length (messages s')"
    if "k \<noteq> [] \<and> getSession k mgr = Some s"
    using that
    by (simp add: processMessages_def getSession_def truthy_def or_empty_def update_conv'
        push_messages_messages push_messages_count)
  show "\<exists>s'. getSession k (addAssistantResponse now k msg mgr) = Some s'
              \<and> messages s' = messages s @ [msg] \<and> messageCount s' = messageCount s + 1"
    if "getSession k mgr = Some s"
    using that by (simp add: addAssistantResponse_def getSession_def update_conv')
  show "\<exists>ys. messages s' = messages s @ ys"
    if "getSession k mgr = Some s \<and> getSession k (apply_op op mgr) = Some s'"
    using that by (elim conjE) (rule apply_op_history_grows)
qed

text \<open>
  The theorem after a request with a system and a user message, the assistant's answer
  and a sweep: the one session has count 2 and two messages.
\<close>

theorem messageCount_after_two_turns:
  "counts_consistent
     (run_ops [Op_processMessages 1 [plain_message ''system'' ''S'', plain_message ''user'' ''A'']
                 (Some ''s1''),
               Op_addAssistantResponse 2 ''s1'' (plain_message ''assistant'' ''B''),
               Op_cleanup 3]
        (SessionManager None))
   \<and> map (\<lambda>(k, s). (k, messageCount s, length (messages s)))
        (sessions
          (run_ops [Op_processMessages 1 [plain_message ''system'' ''S'', plain_message ''user'' ''A'']
                      (Some ''s1''),
                    Op_addAssistantResponse 2 ''s1'' (plain_message ''assistant'' ''B''),
                    Op_cleanup 3]
             (SessionManager None)))
      = [(''s1'', 2, 2)]"
proof -
  have "map (\<lambda>(k, s). (k, messageCount s, length (messages s)))
        (sessions
          (run_ops [Op_processMessages 1 [plain_message ''system'' ''S'', plain_message ''user'' ''A'']
                      (Some ''s1''),
                    Op_addAssistantResponse 2 ''s1'' (plain_message ''assistant'' ''B''),
                    Op_cleanup 3]
             (SessionManager None)))
      = [(''s1'', 2, 2)]"
    by (simp add: processMessages_def addAssistantResponse_def cleanup_def SessionManager_def
        truthy_def or_empty_def Let_def plain_message_def)
  with messageCount_is_history_length show ?thesis
    by blast
qed

subsection \<open>extractToolCalls\<close>

lemma exec_call_example:
  "exec_call example_text = Some (''read_file'', example_args, [])"
  by (simp add: example_text_def example_args_def match_call_at_def is_word_char_def)

lemma exec_call_example_quoted:
  "exec_call example_text_quoted = Some (''read_file'', example_args, [CHR 0x60])"
  by (simp add: example_text_quoted_def example_text_def example_args_def match_call_at_def
      is_word_char_def)

lemma call_matches_backquote: "call_matches [CHR 0x60] = []"
  by (subst call_matches.simps) (simp add: match_call_at_def is_word_char_def)

lemma call_matches_example: "call_matches example_text = [(''read_file'', example_args)]"
  by (subst call_matches.simps) (simp add: exec_call_example call_matches.simps [of "[]"])

lemma call_matches_example_quoted:
  "call_matches example_text_quoted = [(''read_file'', example_args)]"
  by (subst call_matches.simps) (simp add: exec_call_example_quoted call_matches_backquote)

lemma exec_block_no_fence: "CHR 0x60 \<notin> set s \<Longrightarrow> exec_block s = None"
  by (induction s) (auto simp: match_block_at_def fence_def)

lemma exec_block_example: "exec_block example_text = None"
  by (rule exec_block_no_fence) (simp add: example_text_def example_args_def)

lemma exec_block_example_quoted: "exec_block example_text_quoted = None"
  by (simp add: example_text_quoted_def example_text_def example_args_def match_block_at_def fence_def)

lemma block_matches_example: "block_matches example_text = []"
  by (simp add: block_matches.simps [of example_text] exec_block_example)

lemma block_matches_example_quoted: "block_matches example_text_quoted = []"
  by (simp add: block_matches.simps [of example_text_quoted] exec_block_example_quoted)

lemma push_calls_length:
  "length (push_calls pf registry ms acc) = length acc + length (filter (valid_match pf registry) ms)"
  by (induction ms arbitrary: acc)
     (auto simp: push_call_def valid_match_def split: option.splits)

text \<open>
  Claim C8. On the text \<open>read_file({"path":"a.txt"})\<close>, bare or in backquotes, with
  \<open>read_file\<close> registered, \<open>extractToolCalls\<close> returns exactly one tool call, named
  \<open>read_file\<close>, whose arguments are \<open>JSON.stringify\<close> of the parsed argument text (so
  they parse to the same value, \<open>JSON.parse\<close> undoing \<open>JSON.stringify\<close>); with
  \<open>read_file\<close> not registered it returns absent. It never returns an empty list: it
  returns absent exactly when the content is empty or no match of either pattern is
  valid (registered name, arguments that parse). \<open>JSON.parse\<close> and \<open>JSON.stringify\<close>
  are the platform's; that the argument text parses is a fact about them.
\<close>

theorem extractToolCalls_example_and_absent:
  "(''read_file'' \<in> set registry \<and> json_parse pf example_args = Some v \<longrightarrow>
      extractToolCalls pf registry (plain_message ''assistant'' example_text)
        = Some [\<lparr>tc_id = ''call_'' @ random_text pf 0,
                  tc_function = \<lparr>fc_name = ''read_file'', fc_arguments = json_stringify pf v\<rparr>\<rparr>]
      \<and> extractToolCalls pf registry (plain_message ''assistant'' example_text_quoted)
        = Some [\<lparr>tc_id = ''call_'' @ random_text pf 0,
                  tc_function = \<lparr>fc_name = ''read_file'', fc_arguments = json_stringify pf v\<rparr>\<rparr>])
   \<and> (''read_file'' \<in> set registry \<and> json_parse pf example_args = Some v
        \<and> json_parse pf (json_stringify pf v) = Some v \<longrightarrow>
      (\<exists>tc. extractToolCalls pf registry (plain_message ''assistant'' example_text) = Some [tc]
            \<and> fc_name (tc_function tc) = ''read_file''
            \<and> json_parse pf (fc_arguments (tc_function tc)) = json_parse pf example_args))
   \<and> (''read_file'' \<notin> set registry \<longrightarrow>
        extractToolCalls pf registry (plain_message ''assistant'' example_text) = None
        \<and> extractToolCalls pf registry (plain_message ''assistant'' example_text_quoted) = None)
   \<and> extractToolCalls pf registry msg \<noteq> Some []
   \<and> ((extractToolCalls pf registry msg = None) =
        (\<not> truthy (content msg)
         \<or> filter (valid_match pf registry)
              (call_matches (or_empty (content msg)) @ block_matches (or_empty (content msg)))
            = []))"
proof -
  have ne: "example_text \<noteq> []" "example_text_quoted \<noteq> []"
    by (simp_all add: example_text_def example_text_quoted_def)
  have reg: "extractToolCalls pf registry (plain_message ''assistant'' example_text)
        = Some [\<lparr>tc_id = ''call_'' @ random_text pf 0,
                  tc_function = \<lparr>fc_name = ''read_file'', fc_arguments = json_stringify pf v\<rparr>\<rparr>]"
    "extractToolCalls pf registry (plain_message ''assistant'' example_text_quoted)
        = Some [\<lparr>tc_id = ''call_'' @ random_text pf 0,
                  tc_function = \<lparr>fc_name = ''read_file'', fc_arguments = json_stringify pf v\<rparr>\<rparr>]"
    if "''read_file'' \<in> set registry \<and> json_parse pf example_args = Some v"
    using that ne
    by (simp_all add: extractToolCalls_def plain_message_def truthy_def or_empty_def
        call_matches_example call_matches_example_quoted block_matches_example
        block_matches_example_quoted push_call_def)
  have unreg: "extractToolCalls pf registry (plain_message ''assistant'' example_text) = None"
    "extractToolCalls pf registry (plain_message ''assistant'' example_text_quoted) = None"
    if "''read_file'' \<notin> set registry"
    using that ne
    by (simp_all add: extractToolCalls_def plain_message_def truthy_def or_empty_def
        call_matches_example call_matches_example_quoted block_matches_example
        block_matches_example_quoted push_call_def)
  have len: "length (push_calls pf registry (block_matches t) (push_calls pf registry (call_matches t) []))
      = length (filter (valid_match pf registry) (call_matches t @ block_matches t))" for t
    by (simp add: push_calls_length)
  have emp: "(push_calls pf registry (block_matches t) (push_calls pf registry (call_matches t) []) = [])
      = (filter (valid_match pf registry) (call_matches t @ block_matches t) = [])" for t
    using len [of t] by (metis length_0_conv)
  have nonempty: "extractToolCalls pf registry msg \<noteq> Some []"
    by (simp add: extractToolCalls_def Let_def)
  have none: "(extractToolCalls pf registry msg = None) =
        (\<not> truthy (content msg)
         \<or> filter (valid_match pf registry)
              (call_matches (or_empty (content msg)) @ block_matches (or_empty (content msg)))
            = [])"
    by (simp add: extractToolCalls_def Let_def emp del: filter_append)
  show ?thesis
    using reg unreg nonempty none by simp
qed

text \<open>
  The theorem with the default registry of tools.ts, and with a registry that lacks
  \<open>read_file\<close>.
\<close>

theorem extractToolCalls_example_platform:
  "extractToolCalls example_platform default_tools (plain_message ''assistant'' example_text)
     = Some [\<lparr>tc_id = ''call_r0'',
               tc_function = \<lparr>fc_name = ''read_file'', fc_arguments = example_args\<rparr>\<rparr>]
   \<and> extractToolCalls example_platform [''write_file'']
       (plain_message ''assistant'' example_text) = None"
proof -
  have 1: "''read_file'' \<in> set default_tools \<and> json_parse example_platform example_args = Some example_args"
    by (simp add: default_tools_def example_platform_def)
  have 2: "''read_file'' \<notin> set [''write_file'']"
    by simp
  have 3: "''call_'' @ random_text example_platform 0 = ''call_r0''"
    "json_stringify example_platform example_args = example_args"
    by (simp_all add: example_platform_def)
  from extractToolCalls_example_and_absent [of default_tools example_platform example_args
      "plain_message ''assistant'' example_text"] 1
  have a: "extractToolCalls example_platform default_tools (plain_message ''assistant'' example_text)
        = Some [\<lparr>tc_id = ''call_'' @ random_text example_platform 0,
                  tc_function = \<lparr>fc_name = ''read_file'',
                                  fc_arguments = json_stringify example_platform example_args\<rparr>\<rparr>]"
    by blast
  from extractToolCalls_example_and_absent [of "[''write_file'']" example_platform example_args
      "plain_message ''assistant'' example_text"] 2
  have b: "extractToolCalls example_platform [''write_file'']
       (plain_message ''assistant'' example_text) = None"
    by blast
  from a b 3 show ?thesis by simp
qed

subsection \<open>runCompletionStreaming\<close>

text \<open>What does hold: the last event is \<open>complete\<close> or \<open>error\<close>, and no earlier one is \<open>complete\<close>.\<close>

lemma stream_loop_no_complete:
  "EvComplete \<notin> ev_type ` set (fst (stream_loop tid es tu))"
  by (induction tid es tu rule: stream_loop.induct)
     (simp_all add: content_event_def usage_event_def error_event_def Let_def case_prod_unfold)

lemma runCompletionStreaming_last:
  "runCompletionStreaming codex prompt tid sp \<noteq> []
   \<and> ev_type (last (runCompletionStreaming codex prompt tid sp)) \<in> {EvComplete, EvError}
   \<and> EvComplete \<notin> ev_type ` set (butlast (runCompletionStreaming codex prompt tid sp))"
proof -
  define run where "run = codex (if truthy tid then tid else None)
      (if truthy sp then or_empty sp @ newline @ newline @ prompt else prompt)"
  define t where "t = (if truthy (run_thread_id run) then run_thread_id run else None)"
  have r: "runCompletionStreaming codex prompt tid sp =
      fst (stream_loop t (run_events run) None) @
        [case run_thrown run of
           None \<Rightarrow> complete_event t (snd (stream_loop t (run_events run) None))
         | Some msg \<Rightarrow> error_event msg None]"
    unfolding runCompletionStreaming_def run_def [symmetric] Let_def t_def [symmetric]
    by (simp add: case_prod_unfold split: option.splits)
  show ?thesis
    unfolding r using stream_loop_no_complete [of t "run_events run" None]
    by (simp add: complete_event_def error_event_def split: option.splits)
qed

text \<open>
  Claim C2 on the runs \<open>error_only\<close> and \<open>error_then_text\<close>: the SDK's \<open>error\<close> event is
  passed on as an \<open>error\<close> event and the loop goes on, so the \<open>complete\<close> event (and any
  event of the remaining run) follows the \<open>error\<close> event.
\<close>

theorem runCompletionStreaming_events_after_error:
  "runCompletionStreaming error_only ''hi'' None None
     = [error_event ''boom'' (Some ''t1''), complete_event (Some ''t1'') None]
   \<and> map ev_type (runCompletionStreaming error_only ''hi'' None None) = [EvError, EvComplete]
   \<and> runCompletionStreaming error_then_text ''hi'' None None
     = [error_event ''boom'' (Some ''t1''), content_event ''late'' (Some ''t1''),
        complete_event (Some ''t1'') None]
   \<and> map ev_type (runCompletionStreaming error_then_text ''hi'' None None)
     = [EvError, EvContent, EvComplete]"
  by (simp add: runCompletionStreaming_def error_only_def error_then_text_def truthy_def
      or_empty_def content_event_def error_event_def complete_event_def Let_def)

subsection \<open>The streaming branch and the session\<close>

lemma update_threadId_histories:
  "map_of xs k = Some s \<Longrightarrow>
     map (\<lambda>(k, s). (k, messages s)) (AList.update k (s\<lparr>threadId := t\<rparr>) xs)
       = map (\<lambda>(k, s). (k, messages s)) xs"
  by (induction xs) (auto split: if_splits)

lemma setThreadId_histories:
  "map (\<lambda>(k, s). (k, messages s)) (sessions (setThreadId k t mgr))
     = map (\<lambda>(k, s). (k, messages s)) (sessions mgr)"
  by (cases "map_of (sessions mgr) k") (simp_all add: setThreadId_def update_threadId_histories)

lemma consume_events_histories:
  "map (\<lambda>(k, s). (k, messages s)) (sessions (snd (snd (consume_events sid evs out mgr))))
     = map (\<lambda>(k, s). (k, messages s)) (sessions mgr)"
  by (induction sid evs out mgr rule: consume_events.induct)
     (simp_all add: setThreadId_histories)

lemma stream_response_histories:
  "map (\<lambda>(k, s). (k, messages s)) (sessions (snd (stream_response sid evs mgr)))
     = map (\<lambda>(k, s). (k, messages s)) (sessions mgr)"
  using consume_events_histories [of sid evs "[]" mgr]
  by (cases "consume_events sid evs [] mgr" rule: prod_cases3)
     (auto simp: stream_response_def split: option.splits)

lemma history_from_histories:
  "history k mgr =
     (case map_of (map (\<lambda>(k, s). (k, messages s)) (sessions mgr)) k of
        None \<Rightarrow> [] | Some ms \<Rightarrow> ms)"
proof -
  have "map_of (map (\<lambda>(k, s). (k, messages s)) xs) k = map_option messages (map_of xs k)"
    for xs :: "(string \<times> session) list"
    by (induction xs) auto
  then show ?thesis
    by (cases "map_of (sessions mgr) k") (simp_all add: history_def getSession_def)
qed

lemma stream_response_history:
  "history k (snd (stream_response sid evs mgr)) = history k mgr"
  by (simp add: history_from_histories stream_response_histories)

text \<open>
  Claim C1. Whatever the events, the streaming branch leaves the history of every
  session as it was. On a streaming request with session \<open>s1\<close> answered with \<open>Hello\<close> on
  thread \<open>t1\<close>: the content chunk, the final chunk and the end marker are written and
  the thread id is stored, but the history of the session is the user message alone.
  The session update of the non-streaming branch, for the same answer, stores the
  thread id and appends the assistant message.
\<close>

theorem streaming_keeps_history_without_answer:
  "history k (snd (stream_response actualSessionId events mgr)) = history k mgr
   \<and> fst (chat_completions_stream says_hello 1 [plain_message ''user'' ''hi''] (Some ''s1'')
          (SessionManager None))
     = Event_stream [Delta_chunk ''Hello'',
                     Final_chunk Stop (Some \<lparr>prompt_tokens = 3, completion_tokens = 1, total_tokens = 4\<rparr>),
                     Done_marker]
   \<and> getSession ''s1''
        (snd (chat_completions_stream says_hello 1 [plain_message ''user'' ''hi''] (Some ''s1'')
                (SessionManager None)))
     = Some \<lparr>sessionId = ''s1'', threadId = ''t1'', messages = [plain_message ''user'' ''hi''],
             createdAt = 1, lastActive = 1, messageCount = 1\<rparr>
   \<and> getSession ''s1''
        (update_session_after_completion 2 (Some ''s1'') ''Hello'' (Some ''t1'')
           (snd (processMessages 1 [plain_message ''user'' ''hi''] (Some ''s1'')
                   (SessionManager None))))
     = Some \<lparr>sessionId = ''s1'', threadId = ''t1'',
             messages = [plain_message ''user'' ''hi'', plain_message ''assistant'' ''Hello''],
             createdAt = 1, lastActive = 2, messageCount = 2\<rparr>"
proof -
  have general: "history k (snd (stream_response actualSessionId events mgr)) = history k mgr"
    by (rule stream_response_history)
  have concrete: "fst (chat_completions_stream says_hello 1 [plain_message ''user'' ''hi''] (Some ''s1'')
          (SessionManager None))
     = Event_stream [Delta_chunk ''Hello'',
                     Final_chunk Stop (Some \<lparr>prompt_tokens = 3, completion_tokens = 1, total_tokens = 4\<rparr>),
                     Done_marker]
   \<and> getSession ''s1''
        (snd (chat_completions_stream says_hello 1 [plain_message ''user'' ''hi''] (Some ''s1'')
                (SessionManager None)))
     = Some \<lparr>sessionId = ''s1'', threadId = ''t1'', messages = [plain_message ''user'' ''hi''],
             createdAt = 1, lastActive = 1, messageCount = 1\<rparr>
   \<and> getSession ''s1''
        (update_session_after_completion 2 (Some ''s1'') ''Hello'' (Some ''t1'')
           (snd (processMessages 1 [plain_message ''user'' ''hi''] (Some ''s1'')
                   (SessionManager None))))
     = Some \<lparr>sessionId = ''s1'', threadId = ''t1'',
             messages = [plain_message ''user'' ''hi'', plain_message ''assistant'' ''Hello''],
             createdAt = 1, lastActive = 2, messageCount = 2\<rparr>"
    by (simp add: chat_completions_stream_def validateMessages_def processMessages_def
        messagesToPrompt_def stream_response_def runCompletionStreaming_def says_hello_def
        update_session_after_completion_def addAssistantResponse_def setThreadId_def getThreadId_def
        getSession_def SessionManager_def plain_message_def truthy_def or_empty_def or_zero_def
        validRoles_def newline_def content_event_def usage_event_def complete_event_def Let_def)
  from general concrete show ?thesis
    by (rule conjI)
qed

end
